theory Spec2Isabelle
  imports Main
begin

section \<open>cacheMock: mocking the exports of cached Node.js modules\<close>

text \<open>
  A shallow embedding of \<^verbatim>\<open>src/cacheMock.js\<close>. The file defines three operations
  on two pieces of shared state, Node's \<^verbatim>\<open>require.cache\<close> and the function's own
  \<^verbatim>\<open>cacheMock.cache\<close> (the Registry of the specification):
  \<^item> \<^verbatim>\<open>cacheMock(path, mockExports)\<close> (the specification's \<open>mock\<close>),
  \<^item> \<^verbatim>\<open>cacheMock.restore(path)\<close> (\<open>restore\<close>),
  \<^item> \<^verbatim>\<open>cacheMock.require(modulePath, exports = {})\<close> (\<open>preload\<close>).

  JavaScript objects are shared by reference and two of the operations differ exactly in
  whether they mutate an object in place (\<^verbatim>\<open>Object.assign\<close>) or swap a reference
  (\<^verbatim>\<open>cachedModule.exports = original\<close>), so objects live in an explicit store.
\<close>

subsection \<open>Values, objects and the store\<close>

type_synonym addr = nat
type_synonym path = string

text \<open>
  Property values are only ever copied by the code. The one inspection is made by the
  setter of \<^verbatim>\<open>__proto__\<close>, which tells objects and \<^verbatim>\<open>null\<close> from the rest.
\<close>

datatype val = JUndefined | JNull | JBool bool | JNum int | JStr string | JRef addr

datatype error = ResolutionError | LoadError | TypeError

text \<open>
  An object is its own string-keyed properties and its extensibility. A property carries
  the two attributes that the spread \<^verbatim>\<open>{ ...o }\<close> and \<^verbatim>\<open>Object.assign\<close> depend on.
  An accessor property is represented by the value its getter returns, and is \<open>writable\<close>
  when it has a setter (which is taken to store the value); a getter-only property, as
  compilers emit for re-exports, is not writable. Prototypes are not modelled: an object
  inherits from an unmodified \<^verbatim>\<open>Object.prototype\<close>, whose only accessor is
  \<^verbatim>\<open>__proto__\<close>.
\<close>

record property =
  property_value :: val
  writable :: bool
  enumerable :: bool

record object =
  props :: "string \<rightharpoonup> property"
  extensible :: bool

text \<open>
  The own enumerable keys of an object with their values: what \<^verbatim>\<open>Object.keys\<close>, the
  spread and a structural comparison see.
\<close>

type_synonym bindings = "string \<rightharpoonup> val"

text \<open>
  The own enumerable keys and values of an argument object, in enumeration order: all
  that \<^verbatim>\<open>Object.assign\<close> reads of its source.
\<close>

type_synonym key_values = "(string \<times> val) list"

text \<open>
  The store is the list of all objects allocated so far; an address is an index and
  allocation appends. JavaScript has no dangling reference: every reference the program
  holds is below \<open>length\<close> of the store.
\<close>

type_synonym store = "object list"

definition data_property :: "val \<Rightarrow> property" where
  "data_property v = \<lparr>property_value = v, writable = True, enumerable = True\<rparr>"

definition empty_object :: object where
  "empty_object = \<lparr>props = Map.empty, extensible = True\<rparr>"

text \<open>An object literal with distinct keys.\<close>

definition object_literal :: "key_values \<Rightarrow> object" where
  "object_literal kvs =
     \<lparr>props = map_of (map (\<lambda>e. (fst e, data_property (snd e))) kvs), extensible = True\<rparr>"

definition own_enumerable :: "object \<Rightarrow> bindings" where
  "own_enumerable obj k =
     (case props obj k of
        None \<Rightarrow> None
      | Some p \<Rightarrow> if enumerable p then Some (property_value p) else None)"


text \<open>
  \<^verbatim>\<open>{ ...obj }\<close>: a new extensible object with a writable, enumerable data property
  for each own enumerable key.
\<close>

definition spread :: "object \<Rightarrow> object" where
  "spread obj =
     \<lparr>props = (\<lambda>k. map_option data_property (own_enumerable obj k)), extensible = True\<rparr>"

text \<open>
  The assignment \<^verbatim>\<open>target[k] = v\<close> as \<^verbatim>\<open>Object.assign\<close> performs it (a
  \<^verbatim>\<open>[[Set]]\<close> that throws on failure). It fails on an own property that is not writable
  and on a new key of an object that is not extensible. A key \<^verbatim>\<open>__proto__\<close> that is
  not an own property reaches the inherited setter: no property is created; an object or
  \<^verbatim>\<open>null\<close> becomes the prototype, which a non-extensible object refuses, and any other
  value is ignored. (Own properties are all that the model keeps of an object, so the new
  prototype itself is not recorded.)
\<close>

definition can_set :: "object \<Rightarrow> string \<Rightarrow> val \<Rightarrow> bool" where
  "can_set target k v =
     (case props target k of
        Some p \<Rightarrow> writable p
      | None \<Rightarrow>
          if k = ''__proto__''
          then (case v of JRef a \<Rightarrow> extensible target | JNull \<Rightarrow> extensible target | _ \<Rightarrow> True)
          else extensible target)"

definition set_property :: "object \<Rightarrow> string \<Rightarrow> val \<Rightarrow> object" where
  "set_property target k v =
     (case props target k of
        Some p \<Rightarrow> target\<lparr>props := (props target)(k \<mapsto> p\<lparr>property_value := v\<rparr>)\<rparr>
      | None \<Rightarrow>
          if k = ''__proto__'' then target
          else target\<lparr>props := (props target)(k \<mapsto> data_property v)\<rparr>)"

text \<open>
  \<^verbatim>\<open>Object.assign(target, source)\<close>: the keys are assigned in order and the first
  failure throws.
\<close>

fun assign_keys :: "object \<Rightarrow> key_values \<Rightarrow> error + object" where
  "assign_keys target [] = Inr target"
| "assign_keys target (e # source) =
     (if can_set target (fst e) (snd e)
      then assign_keys (set_property target (fst e) (snd e)) source
      else Inl TypeError)"

text \<open>
  A Module Record of the host. Its \<open>exports\<close> field is a reference to an object, as the
  JSDoc types of the source (\<^verbatim>\<open>Object<string, any>\<close>) have it.
\<close>

record module_record =
  filename :: path
  loaded :: bool
  exports :: addr

subsection \<open>The host: resolver, loader, serialiser\<close>

text \<open>
  What Node's \<^verbatim>\<open>require(resolvedPath)\<close> does with a path that is absent from
  \<^verbatim>\<open>require.cache\<close>: the module's code throws (\<open>Throws\<close>); the module is a builtin,
  which is returned without ever entering \<^verbatim>\<open>require.cache\<close> (\<open>Uncached\<close>); or the
  code runs and leaves a fresh exports object (\<open>Exports\<close>).
\<close>

datatype load_result = Throws | Uncached | Exports object

text \<open>
  The host is a parameter of every operation:
  \<^item> \<open>resolve\<close> is \<^verbatim>\<open>require.resolve\<close>, \<open>None\<close> when it throws;
  \<^item> \<open>load\<close> is the outcome of running a module's own code;
  \<^item> \<open>stringify_throws\<close> tells whether \<^verbatim>\<open>JSON.stringify(mockExports, null, 2)\<close>
    throws in the given store (it does on a circular structure or a BigInt). The template
    literal of line 35 evaluates it before anything else happens.
\<close>

record host =
  resolve :: "string \<Rightarrow> path option"
  load :: "path \<Rightarrow> load_result"
  stringify_throws :: "store \<Rightarrow> key_values \<Rightarrow> bool"

text \<open>
  The state: the store, \<^verbatim>\<open>require.cache\<close>, \<^verbatim>\<open>cacheMock.cache\<close> (keys in
  insertion order, which is the order of \<^verbatim>\<open>Object.keys\<close> for keys that are paths), and
  the log of the modules whose real initialisation code has run.
\<close>

record state =
  heap :: store
  require_cache :: "path \<rightharpoonup> module_record"
  cache :: "(path \<times> addr) list"
  executed :: "path list"

definition node_require :: "host \<Rightarrow> path \<Rightarrow> state \<Rightarrow> error + state" where
  "node_require h resolvedPath s =
     (case load h resolvedPath of
        Throws \<Rightarrow> Inl LoadError
      | Uncached \<Rightarrow> Inr s
      | Exports e \<Rightarrow>
          Inr (s\<lparr>heap := heap s @ [e],
                 require_cache := (require_cache s)(resolvedPath \<mapsto>
                    \<lparr>filename = resolvedPath, loaded = True, exports = length (heap s)\<rparr>),
                 executed := executed s @ [resolvedPath]\<rparr>))"

subsection \<open>cacheMock (lines 34-47)\<close>

text \<open>
  \<^verbatim>\<open>cacheMock.cache[resolvedPath] ??= { ...cachedModule.exports }\<close>: the spread is
  evaluated, and a new object allocated, only when the entry is absent.
\<close>

definition snapshot :: "path \<Rightarrow> module_record \<Rightarrow> state \<Rightarrow> state" where
  "snapshot resolvedPath cachedModule s =
     (case map_of (cache s) resolvedPath of
        Some original \<Rightarrow> s
      | None \<Rightarrow> s\<lparr>heap := heap s @ [spread (heap s ! exports cachedModule)],
                    cache := cache s @ [(resolvedPath, length (heap s))]\<rparr>)"

text \<open>
  \<^verbatim>\<open>Object.assign\<close> on the object at address \<open>target\<close>, in place. A throw leaves the
  call, and with it the sequence of calls, so the partly assigned object is not kept.
\<close>

definition object_assign :: "addr \<Rightarrow> key_values \<Rightarrow> state \<Rightarrow> error + state" where
  "object_assign target source s =
     (case assign_keys (heap s ! target) source of
        Inl e \<Rightarrow> Inl e
      | Inr target' \<Rightarrow> Inr (s\<lparr>heap := (heap s)[target := target']\<rparr>))"

definition cacheMock :: "host \<Rightarrow> state \<Rightarrow> string \<Rightarrow> key_values \<Rightarrow> error + state" where
  "cacheMock h s p mockExports =
     (if stringify_throws h (heap s) mockExports then Inl TypeError
      else case resolve h p of
        None \<Rightarrow> Inl ResolutionError
      | Some resolvedPath \<Rightarrow>
          (case (if require_cache s resolvedPath = None
                 then node_require h resolvedPath s else Inr s) of
             Inl e \<Rightarrow> Inl e
           | Inr s1 \<Rightarrow>
               (case require_cache s1 resolvedPath of
                  None \<Rightarrow> Inl TypeError
                | Some cachedModule \<Rightarrow>
                    object_assign (exports cachedModule) mockExports
                      (snapshot resolvedPath cachedModule s1))))"

subsection \<open>cacheMock.restore (lines 73-88)\<close>

text \<open>
  The loop over \<open>entries\<close>. A registered snapshot is an object, hence truthy, so
  \<^verbatim>\<open>cachedModule && original\<close> holds exactly when both lookups find something.
\<close>

fun restore_entries :: "path list \<Rightarrow> state \<Rightarrow> state" where
  "restore_entries [] s = s"
| "restore_entries (resolvedPath # entries) s =
     restore_entries entries
       (case require_cache s resolvedPath of
          None \<Rightarrow> s
        | Some cachedModule \<Rightarrow>
            (case map_of (cache s) resolvedPath of
               None \<Rightarrow> s
             | Some original \<Rightarrow>
                 s\<lparr>require_cache := (require_cache s)(resolvedPath \<mapsto>
                       cachedModule\<lparr>exports := original\<rparr>),
                   cache := filter (\<lambda>e. fst e \<noteq> resolvedPath) (cache s)\<rparr>))"

text \<open>
  The argument is \<open>None\<close> when \<^verbatim>\<open>path\<close> is omitted (\<^verbatim>\<open>undefined\<close>). The test
  \<^verbatim>\<open>path ? ... : ...\<close> is on truthiness, and the empty string is falsy.
\<close>

definition restore :: "host \<Rightarrow> state \<Rightarrow> string option \<Rightarrow> error + state" where
  "restore h s p =
     (case p of
        None \<Rightarrow> Inr (restore_entries (map fst (cache s)) s)
      | Some x \<Rightarrow>
          if x = [] then Inr (restore_entries (map fst (cache s)) s)
          else (case resolve h x of
                  None \<Rightarrow> Inl ResolutionError
                | Some resolvedPath \<Rightarrow> Inr (restore_entries [resolvedPath] s)))"

subsection \<open>cacheMock.require (lines 107-122)\<close>

text \<open>
  The second argument is a reference to the caller's object, or \<open>None\<close> when it is
  omitted: the default \<^verbatim>\<open>{}\<close> is then allocated on entry. The function has no
  \<^verbatim>\<open>return\<close> statement, so the call evaluates to \<^verbatim>\<open>undefined\<close>: the first
  component of the result is the returned Module Record, \<open>None\<close> for \<^verbatim>\<open>undefined\<close>.
  (The object that \<^verbatim>\<open>new Module\<close> puts into \<open>exports\<close> is overwritten two lines
  later and is not allocated here.)
\<close>

definition default_exports :: "addr option \<Rightarrow> state \<Rightarrow> addr \<times> state" where
  "default_exports arg s =
     (case arg of
        Some a \<Rightarrow> (a, s)
      | None \<Rightarrow> (length (heap s), s\<lparr>heap := heap s @ [empty_object]\<rparr>))"

definition cacheMock_require ::
  "host \<Rightarrow> state \<Rightarrow> string \<Rightarrow> addr option \<Rightarrow> error + (module_record option \<times> state)" where
  "cacheMock_require h s modulePath arg =
     (case default_exports arg s of
        (exports_arg, s0) \<Rightarrow>
          (case resolve h modulePath of
             None \<Rightarrow> Inl ResolutionError
           | Some resolvedPath \<Rightarrow>
               (case require_cache s0 resolvedPath of
                  None \<Rightarrow>
                    Inr (None, s0\<lparr>require_cache := (require_cache s0)(resolvedPath \<mapsto>
                           \<lparr>filename = resolvedPath, loaded = True, exports = exports_arg\<rparr>)\<rparr>)
                | Some m \<Rightarrow> Inr (None, s0))))"

subsection \<open>Reading a module\<close>

text \<open>
  The exports of the module cached at a path, as key and value bindings: what a consumer
  that requires the module now can enumerate.
\<close>

definition live_exports :: "state \<Rightarrow> path \<Rightarrow> bindings option" where
  "live_exports s resolvedPath =
     (case require_cache s resolvedPath of
        None \<Rightarrow> None
      | Some m \<Rightarrow> Some (own_enumerable (heap s ! exports m)))"

subsection \<open>Sequences of calls\<close>

text \<open>
  A test is a sequence of calls of the three operations. A call that throws ends the
  sequence, as an uncaught exception ends the test.
\<close>

datatype call = Mock string key_values | Restore "string option" | Preload string "addr option"

definition step :: "host \<Rightarrow> state \<Rightarrow> call \<Rightarrow> error + state" where
  "step h s c =
     (case c of
        Mock p mockExports \<Rightarrow> cacheMock h s p mockExports
      | Restore p \<Rightarrow> restore h s p
      | Preload p arg \<Rightarrow>
          (case cacheMock_require h s p arg of
             Inl e \<Rightarrow> Inl e
           | Inr (r, s') \<Rightarrow> Inr s'))"

fun run :: "host \<Rightarrow> state \<Rightarrow> call list \<Rightarrow> error + state" where
  "run h s [] = Inr s"
| "run h s (c # cs) = (case step h s c of Inl e \<Rightarrow> Inl e | Inr s' \<Rightarrow> run h s' cs)"


text \<open>Every registered identifier has a Module Record in \<^verbatim>\<open>require.cache\<close>.\<close>

definition registered_cached :: "state \<Rightarrow> bool" where
  "registered_cached s = (fst ` set (cache s) \<subseteq> dom (require_cache s))"

text \<open>
  The states in which snapshots are private to the Registry: every registered identifier
  is cached, every reference held by a Module Record or by the Registry is allocated, and
  no Module Record's exports is a registered snapshot object. A state with an empty Registry
  and allocated exports is one, and \<^verbatim>\<open>cacheMock\<close> keeps the property.
\<close>

definition well_formed :: "state \<Rightarrow> bool" where
  "well_formed s =
     (registered_cached s \<and>
      (\<forall>rp m. require_cache s rp = Some m \<longrightarrow>
         exports m < length (heap s) \<and> exports m \<notin> snd ` set (cache s)) \<and>
      (\<forall>e \<in> set (cache s). snd e < length (heap s)))"




subsection \<open>A concrete host and concrete states\<close>

text \<open>
  The module of the repository's test file, with exports \<^verbatim>\<open>{a, b}\<close>, is loaded;
  a second module \<^verbatim>\<open>./n\<close> resolves but is not loaded; nothing else resolves.
\<close>

definition host0 :: host where
  "host0 = \<lparr>resolve = (\<lambda>p. if p = ''./m'' then Some ''/m.js''
                          else if p = ''./n'' then Some ''/n.js'' else None),
            load = (\<lambda>p. if p = ''/n.js'' then Exports (object_literal [(''x'', JNum 5)])
                         else Throws),
            stringify_throws = (\<lambda>st ov. False)\<rparr>"

definition module0 :: module_record where
  "module0 = \<lparr>filename = ''/m.js'', loaded = True, exports = 0\<rparr>"

definition state0 :: state where
  "state0 = \<lparr>heap = [object_literal [(''a'', JStr ''originalA''), (''b'', JStr ''originalB'')]],
             require_cache = [''/m.js'' \<mapsto> module0],
             cache = [],
             executed = [''/m.js'']\<rparr>"

text \<open>The same with the second module loaded as well, as in the test of bulk restore.\<close>

definition module1 :: module_record where
  "module1 = \<lparr>filename = ''/n.js'', loaded = True, exports = 1\<rparr>"

definition state2 :: state where
  "state2 = \<lparr>heap = [object_literal [(''a'', JStr ''originalA''), (''b'', JStr ''originalB'')],
                     object_literal [(''x'', JStr ''originalX''), (''y'', JStr ''originalY'')]],
             require_cache = [''/m.js'' \<mapsto> module0, ''/n.js'' \<mapsto> module1],
             cache = [],
             executed = [''/m.js'', ''/n.js'']\<rparr>"

text \<open>
  The first module mocked with \<^verbatim>\<open>{a: 'mockedA'}\<close>: the live object is merged and the
  Registry holds the snapshot.
\<close>

definition state1 :: state where
  "state1 = \<lparr>heap = [object_literal [(''a'', JStr ''mockedA''), (''b'', JStr ''originalB'')],
                     object_literal [(''a'', JStr ''originalA''), (''b'', JStr ''originalB'')]],
             require_cache = [''/m.js'' \<mapsto> module0],
             cache = [(''/m.js'', 1)],
             executed = [''/m.js'']\<rparr>"


section \<open>Properties\<close>

subsection \<open>Objects\<close>

lemma own_enumerable_spread [simp]: "own_enumerable (spread obj) = own_enumerable obj"
  by (auto simp: own_enumerable_def spread_def data_property_def fun_eq_iff split: option.splits)

lemma own_enumerable_literal: "own_enumerable (object_literal kvs) = map_of kvs"
proof
  fix k
  show "own_enumerable (object_literal kvs) k = map_of kvs k"
    by (induction kvs) (auto simp: own_enumerable_def object_literal_def data_property_def)
qed

lemma own_enumerable_empty [simp]: "own_enumerable empty_object = Map.empty"
  by (simp add: own_enumerable_def empty_object_def fun_eq_iff)



lemma assign_keys_throws:
  "assign_keys obj kvs = Inl err \<Longrightarrow> err = TypeError"
  by (induction kvs arbitrary: obj) (auto split: if_splits)


lemma assign_keys_extensible:
  "assign_keys obj kvs = Inr obj' \<Longrightarrow> extensible obj' = extensible obj"
proof (induction kvs arbitrary: obj)
  case Nil
  then show ?case by simp
next
  case (Cons e kvs)
  from Cons.prems have a: "assign_keys (set_property obj (fst e) (snd e)) kvs = Inr obj'"
    by (auto split: if_splits)
  have "extensible (set_property obj (fst e) (snd e)) = extensible obj"
    by (auto simp: set_property_def split: option.splits)
  with Cons.IH [OF a] show ?case by simp
qed



subsection \<open>Auxiliary facts about the operations\<close>

lemma map_of_filter_keys:
  "map_of (filter (\<lambda>e. P (fst e)) c) k = (if P k then map_of c k else None)"
  by (induction c) auto

lemma snapshot_require_cache [simp]: "require_cache (snapshot rp m s) = require_cache s"
  by (simp add: snapshot_def split: option.splits)

lemma snapshot_executed [simp]: "executed (snapshot rp m s) = executed s"
  by (simp add: snapshot_def split: option.splits)

lemma snapshot_heap_at:
  "a < length (heap s) \<Longrightarrow> heap (snapshot rp m s) ! a = heap s ! a"
  by (simp add: snapshot_def nth_append split: option.splits)

lemma snapshot_length: "length (heap s) \<le> length (heap (snapshot rp m s))"
  by (simp add: snapshot_def split: option.splits)

lemma snapshot_registers: "map_of (cache (snapshot rp m s)) rp \<noteq> None"
  by (cases "map_of (cache s) rp") (simp_all add: snapshot_def map_add_def)

text \<open>What a call of \<^verbatim>\<open>Object.assign\<close> that returns has done.\<close>

lemma object_assign_returns:
  assumes "object_assign t src s = Inr s'"
  obtains obj' where "assign_keys (heap s ! t) src = Inr obj'"
    and "s' = s\<lparr>heap := (heap s)[t := obj']\<rparr>"
  using assms by (auto simp: object_assign_def split: sum.splits)

lemma object_assign_throws: "object_assign t src s = Inl err \<Longrightarrow> err = TypeError"
  by (auto simp: object_assign_def split: sum.splits dest: assign_keys_throws)

text \<open>The three stages of a call that returns.\<close>

lemma cacheMock_stages:
  assumes "cacheMock h s p ov = Inr s'"
  obtains rp s1 m obj' where "resolve h p = Some rp"
    and "(if require_cache s rp = None then node_require h rp s else Inr s) = Inr s1"
    and "require_cache s1 rp = Some m"
    and "assign_keys (heap (snapshot rp m s1) ! exports m) ov = Inr obj'"
    and "s' = (snapshot rp m s1)\<lparr>heap := (heap (snapshot rp m s1))[exports m := obj']\<rparr>"
proof -
  from assms obtain rp where rp: "resolve h p = Some rp"
    by (auto simp: cacheMock_def split: option.splits if_splits)
  from assms rp obtain s1 m where
    s1: "(if require_cache s rp = None then node_require h rp s else Inr s) = Inr s1"
    and m: "require_cache s1 rp = Some m"
    and a: "object_assign (exports m) ov (snapshot rp m s1) = Inr s'"
    by (auto simp: cacheMock_def split: option.splits if_splits sum.splits)
  from a obtain obj' where "assign_keys (heap (snapshot rp m s1) ! exports m) ov = Inr obj'"
    "s' = (snapshot rp m s1)\<lparr>heap := (heap (snapshot rp m s1))[exports m := obj']\<rparr>"
    by (rule object_assign_returns)
  with rp s1 m show ?thesis by (rule that)
qed

text \<open>The call on a module that is already in \<^verbatim>\<open>require.cache\<close>: nothing is loaded.\<close>

lemma cacheMock_cached:
  assumes "resolve h p = Some rp" and "require_cache s rp = Some m"
  shows "cacheMock h s p ov =
           (if stringify_throws h (heap s) ov then Inl TypeError
            else object_assign (exports m) ov (snapshot rp m s))"
  using assms by (simp add: cacheMock_def)

lemma cacheMock_cached_effect:
  assumes "resolve h p = Some rp" and "require_cache s rp = Some m"
    and "exports m < length (heap s)" and "cacheMock h s p ov = Inr s1"
  shows "require_cache s1 = require_cache s"
    and "assign_keys (heap s ! exports m) ov = Inr (heap s1 ! exports m)"
    and "map_of (cache s1) rp \<noteq> None"
    and "executed s1 = executed s"
proof -
  let ?t = "snapshot rp m s"
  have "object_assign (exports m) ov ?t = Inr s1"
    using assms(1,2,4) by (simp add: cacheMock_cached split: if_splits)
  then obtain obj' where a: "assign_keys (heap ?t ! exports m) ov = Inr obj'"
    and s1: "s1 = ?t\<lparr>heap := (heap ?t)[exports m := obj']\<rparr>"
    by (rule object_assign_returns)
  show "require_cache s1 = require_cache s" "executed s1 = executed s" by (simp_all add: s1)
  show "map_of (cache s1) rp \<noteq> None" by (simp add: s1 snapshot_registers)
  have "exports m < length (heap ?t)"
    using assms(3) snapshot_length [of s rp m] by simp
  then have "heap s1 ! exports m = obj'" by (simp add: s1)
  then show "assign_keys (heap s ! exports m) ov = Inr (heap s1 ! exports m)"
    using a assms(3) by (simp add: snapshot_heap_at)
qed

text \<open>The first call on a module that has no Registry entry.\<close>

lemma cacheMock_first:
  assumes "resolve h p = Some rp" and "require_cache s rp = Some m"
    and "exports m < length (heap s)" and "map_of (cache s) rp = None"
    and "cacheMock h s p ov = Inr s1"
  shows "require_cache s1 = require_cache s"
    and "cache s1 = cache s @ [(rp, length (heap s))]"
    and "map_of (cache s1) rp = Some (length (heap s))"
    and "heap s1 ! length (heap s) = spread (heap s ! exports m)"
    and "length (heap s1) = Suc (length (heap s))"
proof -
  let ?t = "snapshot rp m s"
  have "object_assign (exports m) ov ?t = Inr s1"
    using assms(1,2,5) by (simp add: cacheMock_cached split: if_splits)
  then obtain obj' where s1: "s1 = ?t\<lparr>heap := (heap ?t)[exports m := obj']\<rparr>"
    by (rule object_assign_returns)
  show "require_cache s1 = require_cache s" by (simp add: s1)
  show c: "cache s1 = cache s @ [(rp, length (heap s))]"
    using assms(4) by (simp add: s1 snapshot_def)
  show "map_of (cache s1) rp = Some (length (heap s))"
    using assms(4) by (simp add: c map_add_def)
  show "heap s1 ! length (heap s) = spread (heap s ! exports m)"
    using assms(3,4) by (simp add: s1 snapshot_def)
  show "length (heap s1) = Suc (length (heap s))"
    using assms(4) by (simp add: s1 snapshot_def)
qed

text \<open>The loop of \<^verbatim>\<open>restore\<close> never touches the store.\<close>

lemma restore_entries_heap: "heap (restore_entries ps s) = heap s"
  by (induction ps arbitrary: s) (auto split: option.splits)


lemma restore_entries_executed: "executed (restore_entries ps s) = executed s"
  by (induction ps arbitrary: s) (auto split: option.splits)

text \<open>
  What the loop leaves in \<^verbatim>\<open>require.cache\<close>: a record that it visits and that is
  registered has its snapshot as exports, every other record is as before.
\<close>

lemma restore_entries_module:
  "require_cache (restore_entries ps s) rp =
     (case require_cache s rp of
        None \<Rightarrow> None
      | Some m \<Rightarrow>
          (case map_of (cache s) rp of
             None \<Rightarrow> Some m
           | Some a \<Rightarrow> if rp \<in> set ps then Some (m\<lparr>exports := a\<rparr>) else Some m))"
proof (induction ps arbitrary: s)
  case Nil
  then show ?case by (simp split: option.splits)
next
  case (Cons x ps)
  let ?t = "(case require_cache s x of None \<Rightarrow> s
        | Some cachedModule \<Rightarrow>
            (case map_of (cache s) x of None \<Rightarrow> s
             | Some original \<Rightarrow>
                 s\<lparr>require_cache := (require_cache s)(x \<mapsto> cachedModule\<lparr>exports := original\<rparr>),
                   cache := filter (\<lambda>e. fst e \<noteq> x) (cache s)\<rparr>))"
  have step: "restore_entries (x # ps) s = restore_entries ps ?t" by simp
  show ?case
    unfolding step Cons.IH [of ?t]
    by (auto simp: map_of_filter_keys [where P = "\<lambda>k. k \<noteq> x"] split: option.splits)
qed

text \<open>What the loop leaves in the Registry: the entries it did not visit or found no module for.\<close>

lemma restore_entries_cache:
  "cache (restore_entries ps s) =
     filter (\<lambda>e. fst e \<notin> set ps \<or> require_cache s (fst e) = None) (cache s)"
proof (induction ps arbitrary: s)
  case Nil
  then show ?case by simp
next
  case (Cons x ps)
  let ?t = "(case require_cache s x of None \<Rightarrow> s
        | Some cachedModule \<Rightarrow>
            (case map_of (cache s) x of None \<Rightarrow> s
             | Some original \<Rightarrow>
                 s\<lparr>require_cache := (require_cache s)(x \<mapsto> cachedModule\<lparr>exports := original\<rparr>),
                   cache := filter (\<lambda>e. fst e \<noteq> x) (cache s)\<rparr>))"
  have step: "restore_entries (x # ps) s = restore_entries ps ?t" by simp
  have dom: "(require_cache ?t k = None) = (require_cache s k = None)" for k
    by (auto split: option.splits)
  have c: "cache ?t = filter (\<lambda>e. fst e \<noteq> x \<or> require_cache s x = None) (cache s)"
  proof (cases "require_cache s x")
    case None
    then show ?thesis by simp
  next
    case (Some m)
    show ?thesis
    proof (cases "map_of (cache s) x")
      case None
      then have "x \<notin> fst ` set (cache s)" by (simp add: map_of_eq_None_iff)
      then have "filter (\<lambda>e. fst e \<noteq> x) (cache s) = cache s"
        by (auto simp: filter_id_conv)
      with None Some show ?thesis by simp
    next
      case (Some a)
      with \<open>require_cache s x = Some m\<close> show ?thesis by simp
    qed
  qed
  show ?case
    unfolding step Cons.IH [of ?t] c dom
    by (auto intro!: filter_cong)
qed

lemma restore_entries_clears:
  "registered_cached s \<Longrightarrow>
     cache (restore_entries ps s) = filter (\<lambda>e. fst e \<notin> set ps) (cache s)"
  unfolding restore_entries_cache registered_cached_def
  by (rule filter_cong) auto

lemma restore_entries_hit:
  "rp \<in> set ps \<Longrightarrow> require_cache s rp = Some m \<Longrightarrow> map_of (cache s) rp = Some a \<Longrightarrow>
     require_cache (restore_entries ps s) rp = Some (m\<lparr>exports := a\<rparr>) \<and>
     map_of (cache (restore_entries ps s)) rp = None"
proof -
  assume a: "rp \<in> set ps" "require_cache s rp = Some m" "map_of (cache s) rp = Some a"
  have "map_of (cache (restore_entries ps s)) rp =
          (if rp \<notin> set ps \<or> require_cache s rp = None then map_of (cache s) rp else None)"
    unfolding restore_entries_cache
    by (rule map_of_filter_keys [where P = "\<lambda>k. k \<notin> set ps \<or> require_cache s k = None"])
  with a show ?thesis by (simp add: restore_entries_module)
qed


text \<open>
  \<^verbatim>\<open>restore(path)\<close> on a registered, cached module, whether \<^verbatim>\<open>path\<close> is truthy
  (one entry is visited) or the empty string (all are).
\<close>

lemma restore_hit:
  assumes "resolve h p = Some rp" and "require_cache s rp = Some m"
    and "map_of (cache s) rp = Some a" and "restore h s (Some p) = Inr s'"
  shows "require_cache s' rp = Some (m\<lparr>exports := a\<rparr>) \<and> map_of (cache s') rp = None \<and>
         heap s' = heap s"
proof (cases "p = []")
  case True
  have "rp \<in> set (map fst (cache s))"
    using assms(3) by (metis map_of_eq_None_iff option.distinct(1) set_map)
  from restore_entries_hit [OF this assms(2,3)] show ?thesis
    using True assms(4) by (auto simp: restore_def restore_entries_heap)
next
  case False
  have "rp \<in> set [rp]" by simp
  from restore_entries_hit [OF this assms(2,3)] show ?thesis
    using False assms(1,4)
    by (auto simp: restore_def restore_entries_heap simp del: restore_entries.simps)
qed

subsection \<open>Round trip\<close>

text \<open>
  Claim C1 (round-trip law). Let a module be cached with live exports \<open>E0\<close> and have no
  Registry entry. After \<open>mock(id, overrides)\<close> and then \<open>restore(id)\<close> the module's exports
  are \<open>E0\<close> again: the same mapping, that is, the same top-level key set and the same value
  for every key. The Registry entry is gone as well.
\<close>

theorem mock_restore_round_trip:
  assumes "resolve h p = Some rp" and "require_cache s rp = Some m"
    and "exports m < length (heap s)" and "own_enumerable (heap s ! exports m) = E0"
    and "map_of (cache s) rp = None"
    and "cacheMock h s p overrides = Inr s1" and "restore h s1 (Some p) = Inr s2"
  shows "live_exports s rp = Some E0 \<and> live_exports s2 rp = Some E0 \<and>
         map_of (cache s2) rp = None"
proof -
  note f = cacheMock_first [OF assms(1,2,3,5,6)]
  have m1: "require_cache s1 rp = Some m" using f(1) assms(2) by simp
  from restore_hit [OF assms(1) m1 f(3) assms(7)]
  have r: "require_cache s2 rp = Some (m\<lparr>exports := length (heap s)\<rparr>)"
    "map_of (cache s2) rp = None" "heap s2 = heap s1" by simp_all
  have "own_enumerable (heap s1 ! length (heap s)) = E0"
    using assms(4) by (simp add: f(4))
  then show ?thesis using r assms(2,4) by (simp add: live_exports_def)
qed

theorem mock_restore_round_trip_witness:
  "resolve host0 ''./m'' = Some ''/m.js'' \<and> require_cache state0 ''/m.js'' = Some module0 \<and>
   exports module0 < length (heap state0) \<and>
   map_of (cache state0) ''/m.js'' = None \<and>
   (\<exists>s1 s2. cacheMock host0 state0 ''./m'' [(''a'', JStr ''mockedA'')] = Inr s1 \<and>
      restore host0 s1 (Some ''./m'') = Inr s2 \<and>
      live_exports s2 ''/m.js'' = Some [''a'' \<mapsto> JStr ''originalA'', ''b'' \<mapsto> JStr ''originalB''])"
proof -
  have h: "resolve host0 ''./m'' = Some ''/m.js''" "require_cache state0 ''/m.js'' = Some module0"
    "exports module0 < length (heap state0)"
    by (simp_all add: host0_def state0_def module0_def)
  have e: "own_enumerable (heap state0 ! exports module0)
             = [''a'' \<mapsto> JStr ''originalA'', ''b'' \<mapsto> JStr ''originalB'']"
    by (auto simp: state0_def module0_def own_enumerable_literal fun_eq_iff)
  have c: "map_of (cache state0) ''/m.js'' = None" by (simp add: state0_def)
  have "\<exists>s1. cacheMock host0 state0 ''./m'' [(''a'', JStr ''mockedA'')] = Inr s1"
    by (simp add: cacheMock_def host0_def state0_def module0_def snapshot_def object_assign_def
        can_set_def object_literal_def data_property_def)
  then obtain s1 where s1: "cacheMock host0 state0 ''./m'' [(''a'', JStr ''mockedA'')] = Inr s1"
    by blast
  obtain s2 where s2: "restore host0 s1 (Some ''./m'') = Inr s2"
    using h(1) by (simp add: restore_def)
  from mock_restore_round_trip [OF h e c s1 s2] s1 s2 h c show ?thesis by blast
qed

subsection \<open>Merging\<close>




subsection \<open>The keys of the Registry\<close>


lemma node_require_keeps:
  assumes "node_require h rp s = Inr s1"
  shows "cache s1 = cache s" and "dom (require_cache s) \<subseteq> dom (require_cache s1)"
  using assms by (auto simp: node_require_def split: load_result.splits)

lemma step_mock_keys:
  assumes "registered_cached s" and "cacheMock h s p ov = Inr s'"
  shows "\<exists>rp. resolve h p = Some rp \<and> registered_cached s' \<and>
           fst ` set (cache s') = insert rp (fst ` set (cache s))"
proof -
  from assms(2) obtain rp s1 m obj' where rp: "resolve h p = Some rp"
    and s1: "(if require_cache s rp = None then node_require h rp s else Inr s) = Inr s1"
    and m: "require_cache s1 rp = Some m"
    and s': "s' = (snapshot rp m s1)\<lparr>heap := (heap (snapshot rp m s1))[exports m := obj']\<rparr>"
    by (rule cacheMock_stages)
  have c1: "cache s1 = cache s" and d1: "dom (require_cache s) \<subseteq> dom (require_cache s1)"
    using s1 node_require_keeps [of h rp s s1] by (auto split: if_splits)
  have keys: "fst ` set (cache s') = insert rp (fst ` set (cache s))"
  proof (cases "map_of (cache s1) rp")
    case None
    then show ?thesis by (simp add: s' snapshot_def c1)
  next
    case (Some a)
    then have "rp \<in> fst ` set (cache s)"
      unfolding c1 [symmetric] by (metis map_of_eq_None_iff option.distinct(1))
    with Some show ?thesis by (auto simp: s' snapshot_def c1)
  qed
  have "rp \<in> dom (require_cache s1)" using m by blast
  then have "registered_cached s'"
    unfolding registered_cached_def keys using assms(1) d1
    by (auto simp: s' registered_cached_def)
  with rp keys show ?thesis by simp
qed


subsection \<open>Sequences of mock calls\<close>

lemma well_formed_unmocked:
  assumes "cache s = []"
    and "\<And>rp m. require_cache s rp = Some m \<Longrightarrow> exports m < length (heap s)"
  shows "well_formed s"
  using assms by (simp add: well_formed_def registered_cached_def)

lemma run_append:
  "run h s (xs @ ys) = (case run h s xs of Inl e \<Rightarrow> Inl e | Inr s' \<Rightarrow> run h s' ys)"
  by (induction xs arbitrary: s) (auto split: sum.splits)

lemma node_require_well_formed:
  assumes "well_formed s" and "node_require h rp s = Inr s1"
  shows "well_formed s1"
proof (cases "load h rp")
  case Throws
  with assms show ?thesis by (simp add: node_require_def)
next
  case Uncached
  with assms show ?thesis by (simp add: node_require_def)
next
  case (Exports e)
  with assms(2) have s1: "s1 = s\<lparr>heap := heap s @ [e],
       require_cache := (require_cache s)(rp \<mapsto>
          \<lparr>filename = rp, loaded = True, exports = length (heap s)\<rparr>),
       executed := executed s @ [rp]\<rparr>"
    by (simp add: node_require_def)
  show ?thesis
    using assms(1) unfolding well_formed_def registered_cached_def s1
    by (auto simp: less_Suc_eq)
qed

lemma snapshot_assigned_well_formed:
  assumes "well_formed s1" and "require_cache s1 rp = Some m"
  shows "well_formed ((snapshot rp m s1)\<lparr>heap := (heap (snapshot rp m s1))[t := obj']\<rparr>)"
proof (cases "map_of (cache s1) rp")
  case None
  have alloc: "exports m' \<noteq> length (heap s1)" if "require_cache s1 q = Some m'" for q m'
    using assms(1) that unfolding well_formed_def by fastforce
  from None show ?thesis
    using assms alloc unfolding well_formed_def registered_cached_def
    by (auto simp: snapshot_def less_Suc_eq)
next
  case (Some a)
  then show ?thesis
    using assms unfolding well_formed_def registered_cached_def
    by (auto simp: snapshot_def)
qed

lemma cacheMock_well_formed:
  assumes "well_formed s" and "cacheMock h s p ov = Inr s'"
  shows "well_formed s'"
proof -
  from assms(2) obtain rp s1 m obj' where
    s1: "(if require_cache s rp = None then node_require h rp s else Inr s) = Inr s1"
    and m: "require_cache s1 rp = Some m"
    and s': "s' = (snapshot rp m s1)\<lparr>heap := (heap (snapshot rp m s1))[exports m := obj']\<rparr>"
    by (rule cacheMock_stages)
  have "well_formed s1"
    using s1 assms(1) node_require_well_formed [of s h rp s1] by (auto split: if_splits)
  then show ?thesis unfolding s' using m by (rule snapshot_assigned_well_formed)
qed

lemma cacheMock_keeps_entry:
  assumes "well_formed s" and "cacheMock h s p ov = Inr s'"
    and "map_of (cache s) q = Some a"
  shows "map_of (cache s') q = Some a \<and> heap s' ! a = heap s ! a"
proof -
  from assms(2) obtain rp s1 m obj' where
    s1: "(if require_cache s rp = None then node_require h rp s else Inr s) = Inr s1"
    and m: "require_cache s1 rp = Some m"
    and s': "s' = (snapshot rp m s1)\<lparr>heap := (heap (snapshot rp m s1))[exports m := obj']\<rparr>"
    by (rule cacheMock_stages)
  have "(q, a) \<in> set (cache s)" using assms(3) by (rule map_of_SomeD)
  then have a: "a < length (heap s)"
    using assms(1) unfolding well_formed_def by fastforce
  have wf1: "well_formed s1"
    using s1 assms(1) node_require_well_formed [of s h rp s1] by (auto split: if_splits)
  have c1: "cache s1 = cache s" and h1: "heap s1 ! a = heap s ! a"
    and l1: "length (heap s) \<le> length (heap s1)"
    using s1 a by (auto simp: node_require_def nth_append split: if_splits load_result.splits)
  have q1: "map_of (cache s1) q = Some a" using assms(3) c1 by simp
  have "(q, a) \<in> set (cache s1)" using q1 by (rule map_of_SomeD)
  then have "a \<in> snd ` set (cache s1)" by force
  then have ne: "exports m \<noteq> a" using wf1 m unfolding well_formed_def by blast
  let ?t = "snapshot rp m s1"
  have qt: "map_of (cache ?t) q = Some a"
    using q1 by (auto simp: snapshot_def map_add_def split: option.splits)
  have ht: "heap ?t ! a = heap s1 ! a"
    using a l1 by (simp add: snapshot_heap_at)
  have "heap s' ! a = heap ?t ! a"
    using ne by (simp add: s')
  with qt ht h1 show ?thesis by (simp add: s')
qed

lemma cacheMock_keeps_module:
  assumes "cacheMock h s p ov = Inr s'" and "require_cache s q = Some m"
  shows "require_cache s' q = Some m"
proof -
  from assms(1) obtain rp s1 m1 obj' where
    s1: "(if require_cache s rp = None then node_require h rp s else Inr s) = Inr s1"
    and s': "s' = (snapshot rp m1 s1)\<lparr>heap := (heap (snapshot rp m1 s1))[exports m1 := obj']\<rparr>"
    by (rule cacheMock_stages)
  have "require_cache s1 q = Some m"
    using s1 assms(2) by (auto simp: node_require_def split: if_splits load_result.splits)
  then show ?thesis by (simp add: s')
qed

text \<open>Any number of further \<open>mock\<close> calls, on any identifiers.\<close>

lemma run_mocks_keep:
  assumes "well_formed s" and "run h s (map (case_prod Mock) calls) = Inr s'"
  shows "well_formed s'"
    and "map_of (cache s) q = Some a \<Longrightarrow> map_of (cache s') q = Some a \<and> heap s' ! a = heap s ! a"
    and "require_cache s q = Some m \<Longrightarrow> require_cache s' q = Some m"
    and "fst ` set (cache s') \<subseteq>
           fst ` set (cache s) \<union> {rp. \<exists>c \<in> set calls. resolve h (fst c) = Some rp}"
  using assms
proof (induction calls arbitrary: s)
  case Nil
  {
    case 1 then show ?case by simp
  next
    case 2 then show ?case by simp
  next
    case 3 then show ?case by simp
  next
    case 4 then show ?case by simp
  }
next
  case (Cons c calls)
  {
    case 1
    obtain p ov where c: "c = (p, ov)" by (cases c)
    from 1(2) c obtain s1 where s1: "cacheMock h s p ov = Inr s1"
      and rest: "run h s1 (map (case_prod Mock) calls) = Inr s'"
      by (auto simp: step_def split: sum.splits)
    from Cons.IH(1) [OF cacheMock_well_formed [OF 1(1) s1] rest] show ?case .
  next
    case 2
    obtain p ov where c: "c = (p, ov)" by (cases c)
    from 2(3) c obtain s1 where s1: "cacheMock h s p ov = Inr s1"
      and rest: "run h s1 (map (case_prod Mock) calls) = Inr s'"
      by (auto simp: step_def split: sum.splits)
    from cacheMock_keeps_entry [OF 2(2) s1 2(1)]
    have k: "map_of (cache s1) q = Some a" "heap s1 ! a = heap s ! a" by simp_all
    from Cons.IH(2) [OF k(1) cacheMock_well_formed [OF 2(2) s1] rest] k(2)
    show ?case by simp
  next
    case 3
    obtain p ov where c: "c = (p, ov)" by (cases c)
    from 3(3) c obtain s1 where s1: "cacheMock h s p ov = Inr s1"
      and rest: "run h s1 (map (case_prod Mock) calls) = Inr s'"
      by (auto simp: step_def split: sum.splits)
    from Cons.IH(3) [OF cacheMock_keeps_module [OF s1 3(1)] cacheMock_well_formed [OF 3(2) s1] rest]
    show ?case .
  next
    case 4
    obtain p ov where c: "c = (p, ov)" by (cases c)
    from 4(2) c obtain s1 where s1: "cacheMock h s p ov = Inr s1"
      and rest: "run h s1 (map (case_prod Mock) calls) = Inr s'"
      by (auto simp: step_def split: sum.splits)
    have rc: "registered_cached s" using 4(1) by (simp add: well_formed_def)
    from step_mock_keys [OF rc s1] obtain rp where
      rp: "resolve h p = Some rp" "fst ` set (cache s1) = insert rp (fst ` set (cache s))"
      by blast
    from Cons.IH(4) [OF cacheMock_well_formed [OF 4(1) s1] rest] rp c
    show ?case by auto
  }
qed

lemma distinct_map_take_nth:
  assumes "distinct (map f xs)" and "i < length xs" and "c \<in> set (take i xs)"
  shows "f c \<noteq> f (xs ! i)"
proof -
  from assms(3) obtain j where "j < length (take i xs)" "take i xs ! j = c"
    by (auto simp: in_set_conv_nth)
  then have j: "j < i" "j < length xs" "c = xs ! j" using assms(2) by auto
  then have "map f xs ! j \<noteq> map f xs ! i"
    using assms(1,2) by (auto simp: distinct_conv_nth)
  then show ?thesis using j assms(2) by simp
qed

lemma restore_all_clears:
  assumes "registered_cached s" and "restore h s None = Inr s'"
  shows "cache s' = []"
proof -
  have "s' = restore_entries (map fst (cache s)) s" using assms(2) by (simp add: restore_def)
  then have "cache s' = filter (\<lambda>e. fst e \<notin> set (map fst (cache s))) (cache s)"
    using restore_entries_clears [OF assms(1)] by simp
  then show ?thesis by (simp add: filter_empty_conv)
qed

lemma restore_all_hit:
  assumes "require_cache s rp = Some m" and "map_of (cache s) rp = Some a"
    and "restore h s None = Inr s'"
  shows "require_cache s' rp = Some (m\<lparr>exports := a\<rparr>) \<and> heap s' = heap s"
proof -
  have s': "s' = restore_entries (map fst (cache s)) s" using assms(3) by (simp add: restore_def)
  have "rp \<in> set (map fst (cache s))"
    using assms(2) by (metis map_of_eq_None_iff option.distinct(1) set_map)
  from restore_entries_hit [OF this assms(1,2)] show ?thesis
    by (simp add: s' restore_entries_heap)
qed

text \<open>
  Claim C2 (first mock wins). In a well-formed state let a cached module have no Registry
  entry. The first \<open>mock\<close> stores a snapshot in a new object; any number of later \<open>mock\<close>
  calls (on the same identifier, on another spelling of it, or on other modules) leave its
  Registry entry as it is, the same object with the exports from before the first call;
  \<open>restore\<close> then makes those the exports again.
\<close>

theorem first_mock_wins:
  assumes "well_formed s" and "resolve h p = Some rp" and "require_cache s rp = Some m"
    and "map_of (cache s) rp = None"
    and "cacheMock h s p first = Inr s1"
    and "run h s1 (map (case_prod Mock) later) = Inr s2"
    and "restore h s2 (Some p) = Inr s3"
  shows "map_of (cache s1) rp = Some (length (heap s)) \<and>
         map_of (cache s2) rp = map_of (cache s1) rp \<and>
         heap s2 ! length (heap s) = spread (heap s ! exports m) \<and>
         own_enumerable (heap s2 ! length (heap s)) = own_enumerable (heap s ! exports m) \<and>
         live_exports s3 rp = live_exports s rp"
proof -
  have alloc: "exports m < length (heap s)"
    using assms(1,3) unfolding well_formed_def by blast
  note f = cacheMock_first [OF assms(2,3) alloc assms(4,5)]
  have wf1: "well_formed s1" using assms(1,5) by (rule cacheMock_well_formed)
  have m1: "require_cache s1 rp = Some m" using f(1) assms(3) by simp
  note h1 = f(4)
  note r = assms(6)
  from run_mocks_keep(2) [OF wf1 r f(3)]
  have k: "map_of (cache s2) rp = Some (length (heap s))"
    "heap s2 ! length (heap s) = heap s1 ! length (heap s)" by simp_all
  have m2: "require_cache s2 rp = Some m" using wf1 r m1 by (rule run_mocks_keep(3))
  from restore_hit [OF assms(2) m2 k(1) assms(7)]
  have "require_cache s3 rp = Some (m\<lparr>exports := length (heap s)\<rparr>)" "heap s3 = heap s2"
    by simp_all
  then have "live_exports s3 rp = live_exports s rp"
    using k(2) h1 assms(3) by (simp add: live_exports_def)
  with f(3) k h1 show ?thesis by simp
qed

theorem first_mock_wins_witness:
  "well_formed state0 \<and> resolve host0 ''./m'' = Some ''/m.js'' \<and>
   require_cache state0 ''/m.js'' = Some module0 \<and> map_of (cache state0) ''/m.js'' = None \<and>
   (\<exists>s1 s2 s3. cacheMock host0 state0 ''./m'' [(''a'', JStr ''mockA1'')] = Inr s1 \<and>
      run host0 s1 (map (case_prod Mock) [(''./m'', [(''b'', JStr ''mockB1'')])]) = Inr s2 \<and>
      restore host0 s2 (Some ''./m'') = Inr s3 \<and>
      live_exports s3 ''/m.js'' = Some [''a'' \<mapsto> JStr ''originalA'', ''b'' \<mapsto> JStr ''originalB''])"
proof -
  let ?s1 = "projr (cacheMock host0 state0 ''./m'' [(''a'', JStr ''mockA1'')])"
  have wf: "well_formed state0"
    by (simp add: well_formed_def registered_cached_def state0_def module0_def)
  have h: "resolve host0 ''./m'' = Some ''/m.js''" "require_cache state0 ''/m.js'' = Some module0"
    "map_of (cache state0) ''/m.js'' = None"
    by (simp_all add: host0_def state0_def)
  have s1: "cacheMock host0 state0 ''./m'' [(''a'', JStr ''mockA1'')] = Inr ?s1"
    by (simp add: cacheMock_def host0_def state0_def module0_def snapshot_def object_assign_def
        can_set_def object_literal_def data_property_def)
  have "\<exists>s2. run host0 ?s1 (map (case_prod Mock) [(''./m'', [(''b'', JStr ''mockB1'')])]) = Inr s2"
    by (simp add: step_def cacheMock_def host0_def state0_def module0_def snapshot_def
        object_assign_def can_set_def set_property_def object_literal_def data_property_def)
  then obtain s2 where
    s2: "run host0 ?s1 (map (case_prod Mock) [(''./m'', [(''b'', JStr ''mockB1'')])]) = Inr s2"
    by blast
  obtain s3 where s3: "restore host0 s2 (Some ''./m'') = Inr s3"
    using h(1) by (simp add: restore_def)
  from first_mock_wins [OF wf h s1 s2 s3]
  have "live_exports s3 ''/m.js'' = live_exports state0 ''/m.js''" by simp
  moreover have "live_exports state0 ''/m.js''
      = Some [''a'' \<mapsto> JStr ''originalA'', ''b'' \<mapsto> JStr ''originalB'']"
    by (auto simp: live_exports_def state0_def module0_def own_enumerable_literal fun_eq_iff)
  ultimately show ?thesis using wf h s1 s2 s3 by auto
qed

text \<open>
  Claim C4 (bulk restore clears all). From a well-formed state, mock \<open>N\<close> identifiers that
  resolve to distinct modules, each cached and not yet registered, then call \<open>restore()\<close>.
  The Registry is empty, and for the \<open>i\<close>-th of them the exports are what they were in the
  state \<open>si\<close> just before its \<open>mock\<close> call: the record's exports field is the snapshot
  that the Registry held for it.
\<close>

theorem bulk_restore_clears_all:
  assumes "well_formed s0"
    and "distinct (map (\<lambda>c. resolve h (fst c)) calls)"
    and "\<forall>c \<in> set calls. \<exists>rp. resolve h (fst c) = Some rp \<and> rp \<in> dom (require_cache s0) \<and>
            map_of (cache s0) rp = None"
    and "run h s0 (map (case_prod Mock) calls) = Inr s1"
    and "restore h s1 None = Inr s2"
  shows "cache s2 = [] \<and>
         (\<forall>i < length calls. \<forall>si rp.
            run h s0 (map (case_prod Mock) (take i calls)) = Inr si \<and>
            resolve h (fst (calls ! i)) = Some rp \<longrightarrow>
            live_exports si rp \<noteq> None \<and>
            live_exports s2 rp = live_exports si rp \<and>
            (\<exists>m. require_cache s2 rp = Some m \<and> map_of (cache s1) rp = Some (exports m)))"
proof -
  have wf1: "well_formed s1" using assms(1,4) by (rule run_mocks_keep(1))
  then have "registered_cached s1" by (simp add: well_formed_def)
  then have empty: "cache s2 = []" using assms(5) by (rule restore_all_clears)
  have each: "live_exports si rp \<noteq> None \<and> live_exports s2 rp = live_exports si rp \<and>
            (\<exists>m. require_cache s2 rp = Some m \<and> map_of (cache s1) rp = Some (exports m))"
    if i: "i < length calls"
      and si: "run h s0 (map (case_prod Mock) (take i calls)) = Inr si"
      and rp: "resolve h (fst (calls ! i)) = Some rp" for i si rp
  proof -
    obtain p ov where c: "calls ! i = (p, ov)" by (cases "calls ! i")
    have split: "calls = take i calls @ (p, ov) # drop (Suc i) calls"
      using i c by (metis id_take_nth_drop)
    have "run h s0 (map (case_prod Mock) (take i calls) @
             Mock p ov # map (case_prod Mock) (drop (Suc i) calls)) = Inr s1"
      using assms(4) by (subst (asm) split) simp
    then obtain si' where mock: "cacheMock h si p ov = Inr si'"
      and rest: "run h si' (map (case_prod Mock) (drop (Suc i) calls)) = Inr s1"
      using si by (auto simp: run_append step_def split: sum.splits)
    have p: "resolve h p = Some rp" using rp c by simp
    have wfi: "well_formed si" using assms(1) si by (rule run_mocks_keep(1))
    have "calls ! i \<in> set calls" using i by simp
    with assms(3) rp obtain m where m0: "require_cache s0 rp = Some m"
      and fresh0: "map_of (cache s0) rp = None" by fastforce
    have mi: "require_cache si rp = Some m" using assms(1) si m0 by (rule run_mocks_keep(3))
    have "rp \<notin> fst ` set (cache si)"
    proof
      assume "rp \<in> fst ` set (cache si)"
      with run_mocks_keep(4) [OF assms(1) si] fresh0
      obtain c' where c': "c' \<in> set (take i calls)" "resolve h (fst c') = Some rp"
        by (auto simp: map_of_eq_None_iff)
      from distinct_map_take_nth [OF assms(2) i c'(1)] c'(2) rp show False by simp
    qed
    then have freshi: "map_of (cache si) rp = None" by (simp add: map_of_eq_None_iff)
    have alloc: "exports m < length (heap si)"
      using wfi mi unfolding well_formed_def by blast
    note f = cacheMock_first [OF p mi alloc freshi mock]
    have wfi': "well_formed si'" using wfi mock by (rule cacheMock_well_formed)
    note hi' = f(4)
    from run_mocks_keep(2) [OF wfi' rest f(3)]
    have k: "map_of (cache s1) rp = Some (length (heap si))"
      "heap s1 ! length (heap si) = heap si' ! length (heap si)" by simp_all
    have "require_cache si' rp = Some m" using f(1) mi by simp
    with wfi' rest have m1: "require_cache s1 rp = Some m" by (rule run_mocks_keep(3))
    from restore_all_hit [OF m1 k(1) assms(5)]
    have r: "require_cache s2 rp = Some (m\<lparr>exports := length (heap si)\<rparr>)" "heap s2 = heap s1"
      by simp_all
    then show ?thesis using k hi' mi by (simp add: live_exports_def)
  qed
  from empty each show ?thesis by blast
qed

theorem bulk_restore_clears_all_witness:
  "well_formed state2 \<and>
   distinct (map (\<lambda>c. resolve host0 (fst c))
      [(''./m'', [(''a'', JStr ''mockA'')]), (''./n'', [(''x'', JStr ''mockX'')])]) \<and>
   (\<exists>s1 s2. run host0 state2
        [Mock ''./m'' [(''a'', JStr ''mockA'')], Mock ''./n'' [(''x'', JStr ''mockX'')]] = Inr s1 \<and>
      map_of (cache s1) ''/m.js'' \<noteq> None \<and> map_of (cache s1) ''/n.js'' \<noteq> None \<and>
      restore host0 s1 None = Inr s2 \<and> cache s2 = [] \<and>
      live_exports s2 ''/m.js'' = Some [''a'' \<mapsto> JStr ''originalA'', ''b'' \<mapsto> JStr ''originalB''] \<and>
      live_exports s2 ''/n.js'' = Some [''x'' \<mapsto> JStr ''originalX'', ''y'' \<mapsto> JStr ''originalY''])"
proof -
  let ?calls = "[(''./m'', [(''a'', JStr ''mockA'')]), (''./n'', [(''x'', JStr ''mockX'')])]"
  have wf: "well_formed state2"
    by (simp add: well_formed_def registered_cached_def state2_def module0_def module1_def)
  have d: "distinct (map (\<lambda>c. resolve host0 (fst c)) ?calls)"
    by (simp add: host0_def)
  have c: "\<forall>c \<in> set ?calls. \<exists>rp. resolve host0 (fst c) = Some rp \<and>
             rp \<in> dom (require_cache state2) \<and> map_of (cache state2) rp = None"
    by (simp add: host0_def state2_def)
  have "\<exists>si. run host0 state2 (map (case_prod Mock) (take 1 ?calls)) = Inr si \<and>
          live_exports si ''/n.js''
            = Some [''x'' \<mapsto> JStr ''originalX'', ''y'' \<mapsto> JStr ''originalY'']"
    by (auto simp: step_def cacheMock_def host0_def state2_def module0_def module1_def
        snapshot_def object_assign_def live_exports_def can_set_def set_property_def
        object_literal_def data_property_def own_enumerable_def fun_eq_iff)
  then obtain si where si: "run host0 state2 (map (case_prod Mock) (take 1 ?calls)) = Inr si"
    "live_exports si ''/n.js'' = Some [''x'' \<mapsto> JStr ''originalX'', ''y'' \<mapsto> JStr ''originalY'']"
    by blast
  have "\<exists>s1. run host0 state2 (map (case_prod Mock) ?calls) = Inr s1"
    by (simp add: step_def cacheMock_def host0_def state2_def module0_def module1_def
        snapshot_def object_assign_def can_set_def set_property_def object_literal_def
        data_property_def)
  then obtain s1 where s1: "run host0 state2 (map (case_prod Mock) ?calls) = Inr s1" by blast
  obtain s2 where s2: "restore host0 s1 None = Inr s2" by (simp add: restore_def)
  note t = bulk_restore_clears_all [OF wf d c s1 s2]
  have s0: "run host0 state2 (map (case_prod Mock) (take 0 ?calls)) = Inr state2" by simp
  have e: "cache s2 = []" using t by blast
  have "(0::nat) < length ?calls" "resolve host0 (fst (?calls ! 0)) = Some ''/m.js''"
    by (simp_all add: host0_def)
  with t s0 have m: "live_exports s2 ''/m.js'' = live_exports state2 ''/m.js''"
    "\<exists>m. require_cache s2 ''/m.js'' = Some m \<and> map_of (cache s1) ''/m.js'' = Some (exports m)"
    by blast+
  have "(1::nat) < length ?calls" "resolve host0 (fst (?calls ! 1)) = Some ''/n.js''"
    by (simp_all add: host0_def)
  with t si(1) have n: "live_exports s2 ''/n.js'' = live_exports si ''/n.js''"
    "\<exists>m. require_cache s2 ''/n.js'' = Some m \<and> map_of (cache s1) ''/n.js'' = Some (exports m)"
    by blast+
  have "live_exports state2 ''/m.js''
      = Some [''a'' \<mapsto> JStr ''originalA'', ''b'' \<mapsto> JStr ''originalB'']"
    by (auto simp: live_exports_def state2_def module0_def own_enumerable_literal fun_eq_iff)
  with wf d s1 s2 e m n si(2) show ?thesis by auto
qed

subsection \<open>Pre-mock exports through a sequence of calls\<close>




















subsection \<open>Errors\<close>

lemma cacheMock_resolution_error:
  assumes "\<not> stringify_throws h (heap s) ov"
  shows "cacheMock h s p ov = Inl ResolutionError \<longleftrightarrow> resolve h p = None"
proof (cases "resolve h p")
  case None
  with assms show ?thesis by (simp add: cacheMock_def)
next
  case (Some rp)
  have "cacheMock h s p ov \<noteq> Inl ResolutionError"
    using assms Some
    by (auto simp: cacheMock_def node_require_def
        split: option.splits sum.splits load_result.splits if_splits
        dest: object_assign_throws)
  with Some show ?thesis by simp
qed

text \<open>
  Claim C6 (ResolutionError policy), as stated: \<open>restore(identifier)\<close> with an identifier
  supplied raises ResolutionError exactly when the resolver fails on that identifier. The
  empty string is an identifier on which the resolver fails, and \<open>restore('')\<close> returns
  normally: line 76 tests the truthiness of \<^verbatim>\<open>path\<close> and resolves nothing.
\<close>

theorem restore_empty_string_counterexample:
  "resolve host0 [] = None \<and> restore host0 state0 (Some []) = Inr state0"
  by (simp add: host0_def restore_def state0_def)

text \<open>
  Claim C6, amended: \<open>preload(identifier, _)\<close>, \<open>restore(identifier)\<close> with a non-empty
  identifier, and \<open>mock(identifier, overrides)\<close> when the debug line can serialise
  \<open>overrides\<close>, raise ResolutionError exactly when the host resolver fails on the
  identifier; \<open>restore()\<close> with no identifier or with the empty string never raises,
  whatever the Registry holds.
\<close>

theorem resolution_error_policy:
  "(\<not> stringify_throws h (heap s) overrides \<longrightarrow>
      (cacheMock h s p overrides = Inl ResolutionError \<longleftrightarrow> resolve h p = None)) \<and>
   (p \<noteq> [] \<longrightarrow> (restore h s (Some p) = Inl ResolutionError \<longleftrightarrow> resolve h p = None)) \<and>
   (cacheMock_require h s p arg = Inl ResolutionError \<longleftrightarrow> resolve h p = None) \<and>
   (\<exists>s'. restore h s None = Inr s') \<and> (\<exists>s'. restore h s (Some []) = Inr s')"
proof -
  have "p \<noteq> [] \<longrightarrow> (restore h s (Some p) = Inl ResolutionError \<longleftrightarrow> resolve h p = None)"
    by (auto simp: restore_def split: option.splits)
  moreover have "cacheMock_require h s p arg = Inl ResolutionError \<longleftrightarrow> resolve h p = None"
    by (auto simp: cacheMock_require_def split: option.splits prod.splits)
  moreover have "(\<exists>s'. restore h s None = Inr s') \<and> (\<exists>s'. restore h s (Some []) = Inr s')"
    by (simp add: restore_def)
  ultimately show ?thesis using cacheMock_resolution_error [of h s overrides p] by blast
qed

theorem resolution_error_policy_witness:
  "\<not> stringify_throws host0 (heap state0) [] \<and>
   resolve host0 ''./missing'' = None \<and> ''./missing'' \<noteq> [] \<and>
   cacheMock host0 state0 ''./missing'' [] = Inl ResolutionError \<and>
   restore host0 state0 (Some ''./missing'') = Inl ResolutionError \<and>
   cacheMock_require host0 state0 ''./missing'' None = Inl ResolutionError \<and>
   (\<exists>s'. restore host0 state0 None = Inr s')"
proof -
  have r: "resolve host0 ''./missing'' = None" "\<not> stringify_throws host0 (heap state0) []"
    by (simp_all add: host0_def)
  from resolution_error_policy [of host0 state0 "[]" "''./missing''" None] r
  show ?thesis by simp
qed

text \<open>
  Claim C9. \<open>restore\<close> with the empty string (the one falsy value a string argument can
  take) is \<open>restore()\<close>. It does not consult the resolver, so it returns whatever the
  resolver would do with the empty string, and cannot raise. It restores every registered
  entry: each cached module that has an entry gets the registered snapshot as its exports,
  every other record is as before, no object is changed, and the entries that remain are
  those without a Module Record, none when every registered module is cached.
\<close>

theorem restore_falsy_path:
  "restore h s (Some []) = restore h s None \<and>
   restore (h\<lparr>resolve := r\<rparr>) s (Some []) = restore h s (Some []) \<and>
   restore h s (Some []) \<noteq> Inl ResolutionError \<and>
   (\<exists>s'. restore h s (Some []) = Inr s' \<and> heap s' = heap s \<and>
      cache s' = filter (\<lambda>e. require_cache s (fst e) = None) (cache s) \<and>
      (registered_cached s \<longrightarrow> cache s' = []) \<and>
      (\<forall>rp. require_cache s' rp =
         (case require_cache s rp of
            None \<Rightarrow> None
          | Some m \<Rightarrow>
              (case map_of (cache s) rp of
                 None \<Rightarrow> Some m
               | Some original \<Rightarrow> Some (m\<lparr>exports := original\<rparr>)))))"
proof -
  let ?s' = "restore_entries (map fst (cache s)) s"
  have run: "restore h s (Some []) = Inr ?s'" by (simp add: restore_def)
  have c: "cache ?s' = filter (\<lambda>e. require_cache s (fst e) = None) (cache s)"
    unfolding restore_entries_cache by (rule filter_cong) auto
  have "cache ?s' = []" if "registered_cached s"
    using that unfolding c registered_cached_def by (auto simp: filter_empty_conv)
  moreover have "require_cache ?s' rp =
         (case require_cache s rp of
            None \<Rightarrow> None
          | Some m \<Rightarrow>
              (case map_of (cache s) rp of
                 None \<Rightarrow> Some m
               | Some original \<Rightarrow> Some (m\<lparr>exports := original\<rparr>)))" for rp
  proof -
    have "rp \<in> set (map fst (cache s))" if "map_of (cache s) rp = Some a" for a
      using that by (metis map_of_eq_None_iff option.distinct(1) set_map)
    then show ?thesis
      unfolding restore_entries_module by (auto split: option.splits)
  qed
  ultimately show ?thesis
    using run c by (simp add: restore_def restore_entries_heap)
qed

theorem restore_falsy_path_witness:
  "resolve host0 [] = None \<and> registered_cached state1 \<and>
   map_of (cache state1) ''/m.js'' = Some 1 \<and>
   live_exports state1 ''/m.js'' = Some [''a'' \<mapsto> JStr ''mockedA'', ''b'' \<mapsto> JStr ''originalB''] \<and>
   (\<exists>s'. restore host0 state1 (Some []) = Inr s' \<and> cache s' = [] \<and>
      require_cache s' ''/m.js'' = Some (module0\<lparr>exports := 1\<rparr>) \<and>
      live_exports s' ''/m.js'' = Some [''a'' \<mapsto> JStr ''originalA'', ''b'' \<mapsto> JStr ''originalB''])"
proof -
  have r: "resolve host0 [] = None" by (simp add: host0_def)
  have rc: "registered_cached state1" by (simp add: registered_cached_def state1_def)
  have e: "map_of (cache state1) ''/m.js'' = Some 1" by (simp add: state1_def)
  have l: "live_exports state1 ''/m.js''
             = Some [''a'' \<mapsto> JStr ''mockedA'', ''b'' \<mapsto> JStr ''originalB'']"
    by (auto simp: live_exports_def state1_def module0_def own_enumerable_literal fun_eq_iff)
  from restore_falsy_path [of host0 state1] rc obtain s' where
    s': "restore host0 state1 (Some []) = Inr s'" and h: "heap s' = heap state1"
    and c: "cache s' = []"
    and m: "\<And>rp. require_cache s' rp =
         (case require_cache state1 rp of
            None \<Rightarrow> None
          | Some m \<Rightarrow>
              (case map_of (cache state1) rp of
                 None \<Rightarrow> Some m
               | Some original \<Rightarrow> Some (m\<lparr>exports := original\<rparr>)))"
    by blast
  have m': "require_cache s' ''/m.js'' = Some (module0\<lparr>exports := 1\<rparr>)"
    unfolding m by (simp add: state1_def)
  then have "live_exports s' ''/m.js''
      = Some [''a'' \<mapsto> JStr ''originalA'', ''b'' \<mapsto> JStr ''originalB'']"
    by (auto simp: live_exports_def h state1_def own_enumerable_literal fun_eq_iff)
  with r rc e l s' c m' show ?thesis by blast
qed

subsection \<open>Preloading\<close>

text \<open>
  Claim C7 (preload contract). For a resolvable identifier: if a Module Record exists,
  \<open>preload\<close> leaves \<^verbatim>\<open>require.cache\<close>, the Registry, the log of executed modules and
  every allocated object as they are; otherwise it inserts a record marked as loaded whose
  exports field is the supplied object itself, or a new empty object when none is supplied,
  and no module code is executed.
\<close>

theorem preload_contract:
  assumes "resolve h p = Some rp"
  shows "(require_cache s rp \<noteq> None \<longrightarrow>
           (\<exists>r s'. cacheMock_require h s p arg = Inr (r, s') \<and>
              require_cache s' = require_cache s \<and> cache s' = cache s \<and>
              executed s' = executed s \<and> take (length (heap s)) (heap s') = heap s)) \<and>
         (require_cache s rp = None \<longrightarrow>
           (\<exists>r s' a. cacheMock_require h s p arg = Inr (r, s') \<and>
              require_cache s' = (require_cache s)(rp \<mapsto>
                 \<lparr>filename = rp, loaded = True, exports = a\<rparr>) \<and>
              (case arg of Some initialExports \<Rightarrow> a = initialExports \<and> heap s' = heap s
               | None \<Rightarrow> a = length (heap s) \<and> heap s' = heap s @ [empty_object]) \<and>
              cache s' = cache s \<and> executed s' = executed s))"
  using assms
  by (cases arg) (auto simp: cacheMock_require_def default_exports_def)

theorem preload_contract_witness:
  "resolve host0 ''./n'' = Some ''/n.js'' \<and> require_cache state0 ''/n.js'' = None \<and>
   (\<exists>r s'. cacheMock_require host0 state0 ''./n'' None = Inr (r, s') \<and>
      require_cache s' ''/n.js'' = Some \<lparr>filename = ''/n.js'', loaded = True, exports = 1\<rparr> \<and>
      heap s' ! 1 = empty_object \<and> executed s' = [''/m.js''])"
proof -
  have h: "resolve host0 ''./n'' = Some ''/n.js''" by (simp add: host0_def)
  have n: "require_cache state0 ''/n.js'' = None" by (simp add: state0_def)
  from preload_contract [OF h, of state0 None] n
  obtain r s' a where "cacheMock_require host0 state0 ''./n'' None = Inr (r, s')"
    "require_cache s' = (require_cache state0)(''/n.js'' \<mapsto>
        \<lparr>filename = ''/n.js'', loaded = True, exports = a\<rparr>)"
    "a = length (heap state0)" "heap s' = heap state0 @ [empty_object]"
    "executed s' = executed state0"
    by auto
  then show ?thesis using h n by (auto simp: state0_def)
qed

text \<open>
  Claim C8 (preload return value). The JSDoc of \<^verbatim>\<open>cacheMock.require\<close> promises the stub
  module that was inserted; the function body has no \<^verbatim>\<open>return\<close>. On a resolvable,
  unloaded identifier the record is inserted and the call evaluates to \<^verbatim>\<open>undefined\<close>.
\<close>

theorem preload_returns_undefined:
  "\<not> isl (cacheMock_require host0 state0 ''./n'' None) \<and>
   fst (projr (cacheMock_require host0 state0 ''./n'' None)) = None \<and>
   require_cache (snd (projr (cacheMock_require host0 state0 ''./n'' None))) ''/n.js''
     = Some \<lparr>filename = ''/n.js'', loaded = True, exports = 1\<rparr>"
  by (simp add: cacheMock_require_def default_exports_def host0_def state0_def)

subsection \<open>Restoring swaps a reference\<close>

text \<open>
  Claim C10. \<open>restore\<close> on a registered, cached module stores the address of the snapshot
  object itself in the record's exports field and neither changes nor allocates any
  object. So the object that was live before is as it was; and if the state came from a
  \<open>mock\<close> call, that object still is what \<^verbatim>\<open>Object.assign\<close> made of it, the merged,
  mocked values, after the restore.
\<close>

theorem restore_swaps_reference:
  assumes "resolve h p = Some rp" and "require_cache s1 rp = Some m"
    and "map_of (cache s1) rp = Some original" and "restore h s1 (Some p) = Inr s2"
  shows "require_cache s2 rp = Some (m\<lparr>exports := original\<rparr>) \<and> heap s2 = heap s1 \<and>
         heap s2 ! exports m = heap s1 ! exports m \<and>
         (\<forall>s mockExports.
            require_cache s rp = Some m \<and> exports m < length (heap s) \<and>
            cacheMock h s p mockExports = Inr s1 \<longrightarrow>
            assign_keys (heap s ! exports m) mockExports = Inr (heap s2 ! exports m))"
proof -
  from restore_hit [OF assms]
  have r: "require_cache s2 rp = Some (m\<lparr>exports := original\<rparr>)" "heap s2 = heap s1"
    by simp_all
  have "assign_keys (heap s ! exports m) mockExports = Inr (heap s2 ! exports m)"
    if "require_cache s rp = Some m" "exports m < length (heap s)"
      "cacheMock h s p mockExports = Inr s1" for s mockExports
    using cacheMock_cached_effect(2) [OF assms(1) that] r(2) by simp
  with r show ?thesis by simp
qed

theorem restore_swaps_reference_witness:
  "resolve host0 ''./m'' = Some ''/m.js'' \<and> require_cache state0 ''/m.js'' = Some module0 \<and>
   exports module0 < length (heap state0) \<and>
   (\<exists>s1 s2. cacheMock host0 state0 ''./m'' [(''a'', JStr ''mockedA'')] = Inr s1 \<and>
      require_cache s1 ''/m.js'' = Some module0 \<and> map_of (cache s1) ''/m.js'' = Some 1 \<and>
      restore host0 s1 (Some ''./m'') = Inr s2 \<and>
      require_cache s2 ''/m.js'' = Some (module0\<lparr>exports := 1\<rparr>) \<and>
      own_enumerable (heap s2 ! exports module0)
        = [''a'' \<mapsto> JStr ''mockedA'', ''b'' \<mapsto> JStr ''originalB''] \<and>
      own_enumerable (heap s2 ! 1)
        = [''a'' \<mapsto> JStr ''originalA'', ''b'' \<mapsto> JStr ''originalB''])"
proof -
  have h: "resolve host0 ''./m'' = Some ''/m.js''" "require_cache state0 ''/m.js'' = Some module0"
    "exports module0 < length (heap state0)" "map_of (cache state0) ''/m.js'' = None"
    by (simp_all add: host0_def state0_def module0_def)
  have "\<exists>s1. cacheMock host0 state0 ''./m'' [(''a'', JStr ''mockedA'')] = Inr s1"
    by (simp add: cacheMock_def host0_def state0_def module0_def snapshot_def object_assign_def
        can_set_def object_literal_def data_property_def)
  then obtain s1 where s1: "cacheMock host0 state0 ''./m'' [(''a'', JStr ''mockedA'')] = Inr s1"
    by blast
  note f = cacheMock_first [OF h s1]
  have m1: "require_cache s1 ''/m.js'' = Some module0" using f(1) h(2) by simp
  have c1: "map_of (cache s1) ''/m.js'' = Some 1" using f(3) by (simp add: state0_def)
  have "heap s1 ! 1 = spread (heap state0 ! exports module0)"
    using f(4) by (simp add: state0_def)
  then have h1: "own_enumerable (heap s1 ! 1)
      = [''a'' \<mapsto> JStr ''originalA'', ''b'' \<mapsto> JStr ''originalB'']"
    by (auto simp: state0_def module0_def own_enumerable_literal fun_eq_iff)
  obtain s2 where s2: "restore host0 s1 (Some ''./m'') = Inr s2"
    using h(1) by (simp add: restore_def)
  from restore_swaps_reference [OF h(1) m1 c1 s2]
  have r: "require_cache s2 ''/m.js'' = Some (module0\<lparr>exports := 1\<rparr>)" "heap s2 = heap s1"
    "assign_keys (heap state0 ! exports module0) [(''a'', JStr ''mockedA'')]
       = Inr (heap s2 ! exports module0)"
    using h(2,3) s1 by blast+
  have "assign_keys (heap state0 ! exports module0) [(''a'', JStr ''mockedA'')]
      = Inr (set_property (heap state0 ! exports module0) ''a'' (JStr ''mockedA''))"
    by (simp add: state0_def module0_def can_set_def object_literal_def data_property_def)
  with r(3) have "heap s2 ! exports module0
      = set_property (heap state0 ! exports module0) ''a'' (JStr ''mockedA'')" by simp
  then have "own_enumerable (heap s2 ! exports module0)
      = [''a'' \<mapsto> JStr ''mockedA'', ''b'' \<mapsto> JStr ''originalB'']"
    by (auto simp: state0_def module0_def set_property_def object_literal_def data_property_def
        own_enumerable_def fun_eq_iff)
  with r h1 h s1 m1 c1 s2 show ?thesis by auto
qed

end
